theory Spec2Isabelle
  imports Complex_Main "HOL-Library.Word"
begin

unbundle bit_operations_syntax

section \<open>Python values and exceptions\<close>

text \<open>
  The exceptions the two modules can raise. Python has one \<^verbatim>\<open>ValueError\<close> class; its
  instances differ in their message, and the constructors below keep that message apart:
  \<^item> \<open>NotInList tok\<close>: \<^verbatim>\<open>list.index\<close> did not find \<open>tok\<close> (``'tok' is not in list'');
  \<^item> \<open>BadFloat s\<close>, \<open>BadInt s\<close>: \<^verbatim>\<open>float(s)\<close>, \<^verbatim>\<open>int(s)\<close> could not parse \<open>s\<close>;
  \<^item> \<open>BadUnpack\<close>: a tuple unpacking met the wrong number of values;
  \<^item> \<open>NoPoints\<close>, \<open>BadTuples\<close>, \<open>NotConform\<close>: the three \<^verbatim>\<open>raise ValueError(...)\<close> of bbox.py.
  \<open>IndexError\<close>, \<open>TypeError\<close> and \<open>OverflowError\<close> (an integer too large to convert to a
  float) are classes of their own, and \<open>GeomError\<close> stands for whatever the bulge
  reconstruction (not part of the sources at hand) raises.
\<close>

datatype py_error =
    NotInList string
  | BadFloat string
  | BadInt string
  | BadUnpack
  | NoPoints
  | BadTuples
  | NotConform
  | IndexError
  | TypeError
  | OverflowError
  | GeomError

fun is_ValueError :: "py_error \<Rightarrow> bool" where
  "is_ValueError IndexError = False"
| "is_ValueError TypeError = False"
| "is_ValueError OverflowError = False"
| "is_ValueError GeomError = False"
| "is_ValueError _ = True"

type_synonym 'a result = "py_error + 'a"

definition and_then :: "'a result \<Rightarrow> ('a \<Rightarrow> 'b result) \<Rightarrow> 'b result" where
  "and_then m f = (case m of Inl e \<Rightarrow> Inl e | Inr v \<Rightarrow> f v)"

text \<open>\<^verbatim>\<open>try: m  except ValueError: h\<close>\<close>

definition except_ValueError :: "'a result \<Rightarrow> 'a result \<Rightarrow> 'a result" where
  "except_ValueError m h =
     (case m of Inl e \<Rightarrow> (if is_ValueError e then h else Inl e) | Inr v \<Rightarrow> Inr v)"

text \<open>A \<^verbatim>\<open>for\<close> loop that appends one result per element; the first exception ends it.\<close>

fun map_err :: "('a \<Rightarrow> 'b result) \<Rightarrow> 'a list \<Rightarrow> 'b list result" where
  "map_err f [] = Inr []"
| "map_err f (x # xs) =
     (case f x of
        Inl e \<Rightarrow> Inl e
      | Inr y \<Rightarrow> (case map_err f xs of Inl e \<Rightarrow> Inl e | Inr ys \<Rightarrow> Inr (y # ys)))"

text \<open>\<^verbatim>\<open>xs.index(x, start)\<close>: the first position at or after \<open>start\<close> holding \<open>x\<close>.\<close>

fun find_from :: "'a \<Rightarrow> 'a list \<Rightarrow> nat \<Rightarrow> nat option" where
  "find_from x [] n = None"
| "find_from x (y # ys) n = (if y = x then Some n else find_from x ys (Suc n))"

definition index_from :: "string list \<Rightarrow> string \<Rightarrow> nat \<Rightarrow> nat result" where
  "index_from xs x start =
     (case find_from x (drop start xs) start of
        None \<Rightarrow> Inl (NotInList x)
      | Some j \<Rightarrow> Inr j)"

text \<open>\<^verbatim>\<open>xs[num]\<close> for a non-negative \<open>num\<close>.\<close>

definition getitem :: "'a list \<Rightarrow> nat \<Rightarrow> 'a result" where
  "getitem xs num = (if num < length xs then Inr (xs ! num) else Inl IndexError)"

section \<open>Numbers\<close>

text \<open>
  A Python \<^verbatim>\<open>float\<close> is an IEEE 754 double: not a number, an infinity, or a finite
  value (the two zeros are one value here). \<open>Fin r\<close> stands for the double of value
  \<open>r\<close>, and \<open>is_double\<close> says which reals are doubles. Arithmetic rounds the exact
  result to the nearest double, ties to the even significand (53 bits, exponents
  from -1022 on), and overflows to an infinity. Comparisons are exact, and every
  comparison with \<open>NaN\<close> is false.
\<close>

datatype pyfloat = NaN | NInf | Fin real | PInf

text \<open>The integer nearest to \<open>q\<close>, the even one of two that are equally near.\<close>

definition rhe :: "real \<Rightarrow> int" where
  "rhe q =
     (let f = \<lfloor>q\<rfloor>; d = q - of_int f
      in if d < 1 / 2 then f else if 1 / 2 < d then f + 1 else if even f then f else f + 1)"

text \<open>
  The binary exponent of a double at the magnitude of \<open>x\<close>, and the distance of
  neighbouring doubles there.
\<close>

definition expo :: "real \<Rightarrow> int" where
  "expo x = max \<lfloor>log 2 \<bar>x\<bar>\<rfloor> (- 1022)"

definition ulp :: "real \<Rightarrow> real" where
  "ulp x = 2 powr of_int (expo x - 52)"

definition round53 :: "real \<Rightarrow> real" where
  "round53 x = (if x = 0 then 0 else of_int (rhe (x / ulp x)) * ulp x)"

definition rnd :: "real \<Rightarrow> pyfloat" where
  "rnd x =
     (let y = round53 x
      in if 2 ^ 1024 \<le> y then PInf else if y \<le> - (2 ^ 1024) then NInf else Fin y)"

definition is_double :: "real \<Rightarrow> bool" where
  "is_double r = (round53 r = r \<and> \<bar>r\<bar> < 2 ^ 1024)"

text \<open>\<^verbatim>\<open>a < b\<close>, \<^verbatim>\<open>a == b\<close> and \<^verbatim>\<open>a <= b\<close> on floats.\<close>

fun flt :: "pyfloat \<Rightarrow> pyfloat \<Rightarrow> bool" where
  "flt (Fin a) (Fin b) = (a < b)"
| "flt NInf (Fin b) = True"
| "flt NInf PInf = True"
| "flt (Fin a) PInf = True"
| "flt _ _ = False"

fun feq :: "pyfloat \<Rightarrow> pyfloat \<Rightarrow> bool" where
  "feq (Fin a) (Fin b) = (a = b)"
| "feq NInf NInf = True"
| "feq PInf PInf = True"
| "feq _ _ = False"

definition fle :: "pyfloat \<Rightarrow> pyfloat \<Rightarrow> bool" where
  "fle a b = (flt a b \<or> feq a b)"

text \<open>\<^verbatim>\<open>-a\<close>, \<^verbatim>\<open>a + b\<close>, \<^verbatim>\<open>a - b\<close> and \<^verbatim>\<open>a * b\<close> on floats; none of them raises.\<close>

fun fneg :: "pyfloat \<Rightarrow> pyfloat" where
  "fneg NaN = NaN"
| "fneg NInf = PInf"
| "fneg (Fin a) = Fin (- a)"
| "fneg PInf = NInf"

fun fadd :: "pyfloat \<Rightarrow> pyfloat \<Rightarrow> pyfloat" where
  "fadd (Fin a) (Fin b) = rnd (a + b)"
| "fadd NaN _ = NaN"
| "fadd _ NaN = NaN"
| "fadd PInf NInf = NaN"
| "fadd NInf PInf = NaN"
| "fadd PInf _ = PInf"
| "fadd _ PInf = PInf"
| "fadd NInf _ = NInf"
| "fadd _ NInf = NInf"

definition fsub :: "pyfloat \<Rightarrow> pyfloat \<Rightarrow> pyfloat" where
  "fsub a b = fadd a (fneg b)"

text \<open>An infinity of the sign of \<open>a\<close>; not a number for 0.\<close>

definition signed_inf :: "real \<Rightarrow> pyfloat" where
  "signed_inf a = (if a = 0 then NaN else if 0 < a then PInf else NInf)"

fun fmul :: "pyfloat \<Rightarrow> pyfloat \<Rightarrow> pyfloat" where
  "fmul (Fin a) (Fin b) = rnd (a * b)"
| "fmul NaN _ = NaN"
| "fmul _ NaN = NaN"
| "fmul (Fin a) PInf = signed_inf a"
| "fmul (Fin a) NInf = signed_inf (- a)"
| "fmul PInf (Fin b) = signed_inf b"
| "fmul NInf (Fin b) = signed_inf (- b)"
| "fmul PInf PInf = PInf"
| "fmul NInf NInf = PInf"
| "fmul PInf NInf = NInf"
| "fmul NInf PInf = NInf"

text \<open>
  The module \<^verbatim>\<open>math\<close>. \<^verbatim>\<open>math.pi\<close> is the double nearest to \<open>\<pi>\<close>; \<^verbatim>\<open>math.radians(x)\<close>
  and \<^verbatim>\<open>math.degrees(x)\<close> multiply \<open>x\<close> by the doubles nearest to \<open>\<pi> / 180\<close> and to
  \<open>180 / \<pi>\<close>. \<^verbatim>\<open>math.atan\<close> is taken as correctly rounded.
\<close>

definition pi_d :: real where
  "pi_d = 884279719003555 / 2 ^ 48"

definition math_pi :: pyfloat where
  "math_pi = Fin pi_d"

definition deg_to_rad :: real where
  "deg_to_rad = 5030569068109113 / 2 ^ 58"

definition rad_to_deg :: real where
  "rad_to_deg = 1007958012753983 / 2 ^ 44"

definition fradians :: "pyfloat \<Rightarrow> pyfloat" where
  "fradians x = fmul x (Fin deg_to_rad)"

definition fdegrees :: "pyfloat \<Rightarrow> pyfloat" where
  "fdegrees x = fmul x (Fin rad_to_deg)"

text \<open>\<^verbatim>\<open>2*math.pi\<close>\<close>

definition two_pi :: pyfloat where
  "two_pi = fmul (Fin 2) math_pi"

definition fatan :: "pyfloat \<Rightarrow> pyfloat" where
  "fatan x =
     (case x of
        NaN \<Rightarrow> NaN
      | NInf \<Rightarrow> rnd (- (pi / 2))
      | Fin r \<Rightarrow> rnd (arctan r)
      | PInf \<Rightarrow> rnd (pi / 2))"

text \<open>
  A number of bbox.py is an \<^verbatim>\<open>int\<close> (unbounded) or a \<^verbatim>\<open>float\<close>. Python compares an
  \<^verbatim>\<open>int\<close> with a \<^verbatim>\<open>float\<close> by their exact values, and converts the \<^verbatim>\<open>int\<close> to a \<^verbatim>\<open>float\<close>
  (rounding, or raising \<^verbatim>\<open>OverflowError\<close>) before it subtracts one from the other.
\<close>

datatype pynum = PyInt int | PyFloat pyfloat

definition ext :: "pynum \<Rightarrow> pyfloat" where
  "ext n = (case n of PyInt i \<Rightarrow> Fin (of_int i) | PyFloat f \<Rightarrow> f)"

definition num_lt :: "pynum \<Rightarrow> pynum \<Rightarrow> bool" where
  "num_lt a b = flt (ext a) (ext b)"

definition num_le :: "pynum \<Rightarrow> pynum \<Rightarrow> bool" where
  "num_le a b = fle (ext a) (ext b)"

definition as_float :: "pynum \<Rightarrow> pyfloat result" where
  "as_float n =
     (case n of
        PyFloat f \<Rightarrow> Inr f
      | PyInt i \<Rightarrow> (case rnd (of_int i) of Fin v \<Rightarrow> Inr (Fin v) | _ \<Rightarrow> Inl OverflowError))"

definition num_sub :: "pynum \<Rightarrow> pynum \<Rightarrow> pynum result" where
  "num_sub a b =
     (case (a, b) of
        (PyInt i, PyInt j) \<Rightarrow> Inr (PyInt (i - j))
      | _ \<Rightarrow>
          and_then (as_float a) (\<lambda>x.
          and_then (as_float b) (\<lambda>y.
          Inr (PyFloat (fsub x y)))))"

section \<open>Parsing and scanning\<close>

text \<open>
  \<^verbatim>\<open>float(s)\<close> and \<^verbatim>\<open>int(s)\<close> are Python built-ins. They enter the model as parameters
  \<open>fl\<close> and \<open>pint\<close>: the parsed number, or \<open>None\<close> where Python raises \<^verbatim>\<open>ValueError\<close>.
\<close>

definition to_float :: "(string \<Rightarrow> pyfloat option) \<Rightarrow> string \<Rightarrow> pyfloat result" where
  "to_float fl s = (case fl s of None \<Rightarrow> Inl (BadFloat s) | Some v \<Rightarrow> Inr v)"

definition to_int :: "(string \<Rightarrow> int option) \<Rightarrow> string \<Rightarrow> int result" where
  "to_int pint s = (case pint s of None \<Rightarrow> Inl (BadInt s) | Some v \<Rightarrow> Inr v)"

text \<open>\<^verbatim>\<open>[num for num, ln in enumerate(lines) if ln == s]\<close>\<close>

definition enumerate_eq :: "string list \<Rightarrow> string \<Rightarrow> nat list" where
  "enumerate_eq lines s = filter (\<lambda>num. lines ! num = s) [0..<length lines]"

text \<open>
  \<^verbatim>\<open>str.strip()\<close> removes leading and trailing whitespace. A \<open>char\<close> stands for a code
  point below 256; the whitespace among these is tab to carriage return, the four
  separators 0x1C to 0x1F, the space, the next-line control 0x85 and the no-break
  space 0xA0.
\<close>

definition isspace :: "char \<Rightarrow> bool" where
  "isspace c = (c \<in> set [CHR 0x09, CHR 0x0A, CHR 0x0B, CHR 0x0C, CHR 0x0D,
                          CHR 0x1C, CHR 0x1D, CHR 0x1E, CHR 0x1F, CHR 0x20,
                          CHR 0x85, CHR 0xA0])"

definition strip :: "string \<Rightarrow> string" where
  "strip s = rev (dropWhile isspace (rev (dropWhile isspace s)))"

section \<open>Entities\<close>

text \<open>
  Modelled from the spec: the module \<^verbatim>\<open>nctools.ent\<close> (the classes \<^verbatim>\<open>Line\<close> and \<^verbatim>\<open>Arc\<close>
  and the function \<^verbatim>\<open>arcdata\<close>) is imported by dxf.py and is not among the sources.
  An entity holds what dxf.py passes to its constructor, in that order:
  \<^verbatim>\<open>ent.Line(x1, y1, x2, y2, index, layer)\<close> and \<^verbatim>\<open>ent.Arc(cx, cy, R, a0, a1, index, layer)\<close>;
  \<open>index\<close> is the attribute the reader sorts by. The orientation flag of an arc is
  derived by the missing constructor and is not part of what the reader passes.
  \<^verbatim>\<open>ent.arcdata\<close> is a parameter \<open>arcdata\<close> of the polyline decoder.
\<close>

datatype entity =
    Line (x1: pyfloat) (y1: pyfloat) (x2: pyfloat) (y2: pyfloat) (index: nat) (layer: string)
  | Arc (cx: pyfloat) (cy: pyfloat) (R: pyfloat) (a0: pyfloat) (a1: pyfloat) (index: nat)
      (layer: string)

type_synonym point = "pyfloat \<times> pyfloat"

type_synonym arcdata_fn =
  "point \<Rightarrow> point \<Rightarrow> pyfloat \<Rightarrow> (point \<times> pyfloat \<times> pyfloat \<times> pyfloat) result"

section \<open>dxf.py: the decoder\<close>

text \<open>
  The step every extraction repeats:
  \<^verbatim>\<open>num = lines.index(code, num) + 1\<close> followed by a read of \<^verbatim>\<open>lines[num]\<close>.
  \<open>locate\<close> returns the new \<open>num\<close>.
\<close>

definition locate :: "string list \<Rightarrow> string \<Rightarrow> nat \<Rightarrow> nat result" where
  "locate lines code num = and_then (index_from lines code num) (\<lambda>p. Inr (p + 1))"

definition float_at ::
  "(string \<Rightarrow> pyfloat option) \<Rightarrow> string list \<Rightarrow> nat \<Rightarrow> pyfloat result" where
  "float_at fl lines num = and_then (getitem lines num) (to_float fl)"

subsection \<open>\<^verbatim>\<open>_get_lines\<close>\<close>

definition get_line :: "(string \<Rightarrow> pyfloat option) \<Rightarrow> string list \<Rightarrow> nat \<Rightarrow> entity result" where
  "get_line fl lines i =
     and_then (locate lines ''8'' i) (\<lambda>n8.
     and_then (getitem lines n8) (\<lambda>layer.
     and_then (locate lines ''10'' n8) (\<lambda>n10.
     and_then (float_at fl lines n10) (\<lambda>x1.
     and_then (locate lines ''20'' n10) (\<lambda>n20.
     and_then (float_at fl lines n20) (\<lambda>y1.
     and_then (locate lines ''11'' n20) (\<lambda>n11.
     and_then (float_at fl lines n11) (\<lambda>x2.
     and_then (locate lines ''21'' n11) (\<lambda>n21.
     and_then (float_at fl lines n21) (\<lambda>y2.
     Inr (Line x1 y1 x2 y2 i layer)))))))))))"

definition get_lines :: "(string \<Rightarrow> pyfloat option) \<Rightarrow> string list \<Rightarrow> entity list result" where
  "get_lines fl lines = map_err (get_line fl lines) (enumerate_eq lines ''LINE'')"

subsection \<open>\<^verbatim>\<open>_get_arcs\<close>\<close>

definition get_arc :: "(string \<Rightarrow> pyfloat option) \<Rightarrow> string list \<Rightarrow> nat \<Rightarrow> entity result" where
  "get_arc fl lines i =
     and_then (locate lines ''8'' i) (\<lambda>n8.
     and_then (getitem lines n8) (\<lambda>layer.
     and_then (locate lines ''10'' n8) (\<lambda>n10.
     and_then (float_at fl lines n10) (\<lambda>cx.
     and_then (locate lines ''20'' n10) (\<lambda>n20.
     and_then (float_at fl lines n20) (\<lambda>cy.
     and_then (locate lines ''40'' n20) (\<lambda>n40.
     and_then (float_at fl lines n40) (\<lambda>R.
     and_then (locate lines ''50'' n40) (\<lambda>n50.
     and_then (float_at fl lines n50) (\<lambda>d1.
     and_then (locate lines ''51'' n50) (\<lambda>n51.
     and_then (float_at fl lines n51) (\<lambda>d2.
     let a1 = fradians d1; a2 = fradians d2;
         a2 = (if flt a2 a1 then fadd a2 two_pi else a2)
     in Inr (Arc cx cy R a1 a2 i layer)))))))))))))"

definition get_arcs :: "(string \<Rightarrow> pyfloat option) \<Rightarrow> string list \<Rightarrow> entity list result" where
  "get_arcs fl lines = map_err (get_arc fl lines) (enumerate_eq lines ''ARC'')"

subsection \<open>\<^verbatim>\<open>_get_circles\<close>\<close>

definition get_circle :: "(string \<Rightarrow> pyfloat option) \<Rightarrow> string list \<Rightarrow> nat \<Rightarrow> entity result" where
  "get_circle fl lines i =
     and_then (locate lines ''8'' i) (\<lambda>n8.
     and_then (getitem lines n8) (\<lambda>layer.
     and_then (locate lines ''10'' n8) (\<lambda>n10.
     and_then (float_at fl lines n10) (\<lambda>cx.
     and_then (locate lines ''20'' n10) (\<lambda>n20.
     and_then (float_at fl lines n20) (\<lambda>cy.
     and_then (locate lines ''40'' n20) (\<lambda>n40.
     and_then (float_at fl lines n40) (\<lambda>R.
     Inr (Arc cx cy R (Fin 0) two_pi i layer)))))))))"

definition get_circles :: "(string \<Rightarrow> pyfloat option) \<Rightarrow> string list \<Rightarrow> entity list result" where
  "get_circles fl lines = map_err (get_circle fl lines) (enumerate_eq lines ''CIRCLE'')"

subsection \<open>\<^verbatim>\<open>_get_polylines\<close>\<close>

text \<open>
  The flags of a polyline: \<^verbatim>\<open>int(lines[num]) & 1\<close> behind the first \<^verbatim>\<open>70\<close> at or after
  the layer's position, \<^verbatim>\<open>False\<close> when a \<^verbatim>\<open>ValueError\<close> is raised on the way.
\<close>

definition closed_flag :: "(string \<Rightarrow> int option) \<Rightarrow> string list \<Rightarrow> nat \<Rightarrow> bool result" where
  "closed_flag pint lines num =
     except_ValueError
       (and_then (locate lines ''70'' num) (\<lambda>n70.
        and_then (getitem lines n70) (\<lambda>s.
        and_then (to_int pint s) (\<lambda>v.
        Inr (v AND 1 \<noteq> 0)))))
       (Inr False)"

text \<open>\<^verbatim>\<open>zip(vi, vi[1:]+[end])\<close>\<close>

definition vertex_windows :: "nat list \<Rightarrow> nat \<Rightarrow> (nat \<times> nat) list" where
  "vertex_windows vi seqend = zip vi (tl vi @ [seqend])"

text \<open>The angle of the segment leaving a vertex, from the bulge behind \<^verbatim>\<open>42\<close>.\<close>

definition bulge_angle ::
  "(string \<Rightarrow> pyfloat option) \<Rightarrow> string list \<Rightarrow> nat \<Rightarrow> nat \<Rightarrow> pyfloat result" where
  "bulge_angle fl lines num k =
     except_ValueError
       (and_then (locate lines ''42'' num) (\<lambda>n42.
        if n42 < k
        then and_then (float_at fl lines n42) (\<lambda>b. Inr (fmul (fatan b) (Fin 4)))
        else Inr (Fin 0)))
       (Inr (Fin 0))"

text \<open>The body of the loop over the windows: one point and one angle.\<close>

definition get_vertex ::
  "(string \<Rightarrow> pyfloat option) \<Rightarrow> string list \<Rightarrow> nat \<times> nat \<Rightarrow> (point \<times> pyfloat) result"
  where
  "get_vertex fl lines w =
     (case w of (j, k) \<Rightarrow>
     and_then (locate lines ''10'' j) (\<lambda>n10.
     and_then (float_at fl lines n10) (\<lambda>x.
     and_then (locate lines ''20'' n10) (\<lambda>n20.
     and_then (float_at fl lines n20) (\<lambda>y.
     and_then (bulge_angle fl lines n20 k) (\<lambda>a.
     Inr ((x, y), a)))))))"

text \<open>
  The body of the loop over \<^verbatim>\<open>ends\<close>: a line when \<^verbatim>\<open>a == 0\<close>, an arc otherwise.
\<close>

definition segment ::
  "arcdata_fn \<Rightarrow> nat \<Rightarrow> string \<Rightarrow> point \<times> point \<times> pyfloat \<Rightarrow> entity result" where
  "segment arcdata i lyr t =
     (case t of (sp, ep, a) \<Rightarrow>
        if feq a (Fin 0) then Inr (Line (fst sp) (snd sp) (fst ep) (snd ep) i lyr)
        else and_then (arcdata sp ep a) (\<lambda>r.
               case r of ((xc, yc), rad, b0, b1) \<Rightarrow> Inr (Arc xc yc rad b0 b1 i lyr)))"

text \<open>\<^verbatim>\<open>if closed: pnts.append(pnts[0])\<close>\<close>

definition close_points :: "bool \<Rightarrow> point list \<Rightarrow> point list result" where
  "close_points is_closed pnts =
     (if is_closed then (case pnts of [] \<Rightarrow> Inl IndexError | p # _ \<Rightarrow> Inr (pnts @ [p]))
      else Inr pnts)"

definition get_polyline ::
  "(string \<Rightarrow> pyfloat option) \<Rightarrow> (string \<Rightarrow> int option) \<Rightarrow> arcdata_fn \<Rightarrow> string list \<Rightarrow> nat
   \<Rightarrow> entity list result" where
  "get_polyline fl pint arcdata lines i =
     and_then (locate lines ''8'' i) (\<lambda>n8.
     and_then (getitem lines n8) (\<lambda>layer.
     and_then (closed_flag pint lines n8) (\<lambda>closed.
     and_then (index_from lines ''SEQEND'' i) (\<lambda>seqend.
     and_then (map_err (get_vertex fl lines)
                 (vertex_windows (enumerate_eq lines ''VERTEX'') seqend)) (\<lambda>vs.
     and_then (close_points closed (map fst vs)) (\<lambda>pnts.
     map_err (segment arcdata i layer) (zip pnts (zip (tl pnts) (map snd vs)))))))))"

definition get_polylines ::
  "(string \<Rightarrow> pyfloat option) \<Rightarrow> (string \<Rightarrow> int option) \<Rightarrow> arcdata_fn \<Rightarrow> string list
   \<Rightarrow> entity list result" where
  "get_polylines fl pint arcdata lines =
     and_then (map_err (get_polyline fl pint arcdata lines) (enumerate_eq lines ''POLYLINE''))
       (\<lambda>rs. Inr (concat rs))"

subsection \<open>\<^verbatim>\<open>reader\<close>\<close>

text \<open>
  \<open>entities_slice\<close> is \<^verbatim>\<open>data[soe:eoe]\<close>, the tokens between the first \<^verbatim>\<open>ENTITIES\<close> and
  the first \<^verbatim>\<open>ENDSEC\<close> after it; \<open>decode\<close> is the rest of \<^verbatim>\<open>reader\<close>, on that slice.
  \<open>reader\<close> takes the lines of the file as \<^verbatim>\<open>readlines()\<close> returns them.
\<close>

definition entities_slice :: "string list \<Rightarrow> string list result" where
  "entities_slice data =
     and_then (index_from data ''ENTITIES'' 0) (\<lambda>p.
     let soe = p + 1 in
     and_then (index_from data ''ENDSEC'' soe) (\<lambda>eoe.
     Inr (take (eoe - soe) (drop soe data))))"

definition decode ::
  "(string \<Rightarrow> pyfloat option) \<Rightarrow> (string \<Rightarrow> int option) \<Rightarrow> arcdata_fn \<Rightarrow> string list
   \<Rightarrow> entity list result" where
  "decode fl pint arcdata lines =
     and_then (get_lines fl lines) (\<lambda>e1.
     and_then (get_arcs fl lines) (\<lambda>e2.
     and_then (get_circles fl lines) (\<lambda>e3.
     and_then (get_polylines fl pint arcdata lines) (\<lambda>e4.
     Inr (sort_key index (e1 @ e2 @ e3 @ e4))))))"

definition reader ::
  "(string \<Rightarrow> pyfloat option) \<Rightarrow> (string \<Rightarrow> int option) \<Rightarrow> arcdata_fn \<Rightarrow> string list
   \<Rightarrow> entity list result" where
  "reader fl pint arcdata raw =
     and_then (entities_slice (map strip raw)) (decode fl pint arcdata)"

section \<open>bbox.py\<close>

text \<open>
  The argument \<^verbatim>\<open>pnts\<close> of the three methods is a list of points (tuples of numbers)
  or one bare point (a flat tuple of numbers). A number is a Python \<^verbatim>\<open>int\<close> or \<^verbatim>\<open>float\<close>.
\<close>

datatype pnts_arg = Bare "pynum list" | Pts "pynum list list"

record bbox =
  minx :: pynum
  maxx :: pynum
  miny :: pynum
  maxy :: pynum
  minz :: "pynum option"
  maxz :: "pynum option"
  dim :: nat

text \<open>
  \<^verbatim>\<open>len(pnts) in (2, 3) and isinstance(pnts[0], (int, float))\<close>: the test for a
  bare point, which is then wrapped as \<^verbatim>\<open>[pnts]\<close>.
\<close>

definition is_single :: "pnts_arg \<Rightarrow> bool" where
  "is_single a = (case a of Bare p \<Rightarrow> length p = 2 \<or> length p = 3 | Pts ps \<Rightarrow> False)"

text \<open>
  The list of points after the wrap. A flat tuple that is not wrapped has numbers
  where points are expected: \<^verbatim>\<open>pnts[0]\<close> raises \<^verbatim>\<open>IndexError\<close> when it is empty and
  \<^verbatim>\<open>len(pnts[0])\<close> raises \<^verbatim>\<open>TypeError\<close> otherwise, the first thing each method does
  with it.
\<close>

definition points :: "pnts_arg \<Rightarrow> pynum list list result" where
  "points a =
     (case a of
        Pts ps \<Rightarrow> Inr ps
      | Bare p \<Rightarrow>
          if is_single a then Inr [p]
          else if p = [] then Inl IndexError else Inl TypeError)"

text \<open>\<^verbatim>\<open>len(pnts[0])\<close>\<close>

definition len0 :: "pynum list list \<Rightarrow> nat result" where
  "len0 pnts = (case pnts of [] \<Rightarrow> Inl IndexError | p # _ \<Rightarrow> Inr (length p))"

text \<open>\<^verbatim>\<open>not pnts\<close>\<close>

definition is_empty :: "pnts_arg \<Rightarrow> bool" where
  "is_empty a = (case a of Bare p \<Rightarrow> p = [] | Pts ps \<Rightarrow> ps = [])"

text \<open>
  \<^verbatim>\<open>zip(*pnts)\<close>: the columns of the points, as many as the shortest point has
  components.
\<close>

definition zip_star :: "'a list list \<Rightarrow> 'a list list" where
  "zip_star pnts =
     (case pnts of
        [] \<Rightarrow> []
      | p # r \<Rightarrow> map (\<lambda>k. map (\<lambda>q. q ! k) pnts) [0..<fold min (map length r) (length p)])"

text \<open>
  \<^verbatim>\<open>min(x)\<close> and \<^verbatim>\<open>max(x)\<close> of a tuple: the first item is kept until a later item
  compares smaller (for \<^verbatim>\<open>max\<close>: greater) than the one kept. The columns they are
  applied to are never empty.
\<close>

definition py_min :: "pynum list \<Rightarrow> pynum" where
  "py_min x = fold (\<lambda>v m. if num_lt v m then v else m) (tl x) (hd x)"

definition py_max :: "pynum list \<Rightarrow> pynum" where
  "py_max x = fold (\<lambda>v m. if num_lt m v then v else m) (tl x) (hd x)"

text \<open>\<^verbatim>\<open>BBox.__init__\<close>: the new box, or the exception.\<close>

definition init :: "pnts_arg \<Rightarrow> bbox result" where
  "init a =
     (if is_empty a then Inl NoPoints
      else
        and_then (points a) (\<lambda>pnts.
        and_then (len0 pnts) (\<lambda>n.
          if n = 2 then
            (case zip_star pnts of
               [x, y] \<Rightarrow>
                 Inr \<lparr>minx = py_min x, maxx = py_max x, miny = py_min y, maxy = py_max y,
                      minz = None, maxz = None, dim = 2\<rparr>
             | _ \<Rightarrow> Inl BadUnpack)
          else if n = 3 then
            (case zip_star pnts of
               [x, y, z] \<Rightarrow>
                 Inr \<lparr>minx = py_min x, maxx = py_max x, miny = py_min y, maxy = py_max y,
                      minz = Some (py_min z), maxz = Some (py_max z), dim = 3\<rparr>
             | _ \<Rightarrow> Inl BadUnpack)
          else Inl BadTuples)))"

text \<open>
  \<^verbatim>\<open>BBox.update\<close>: the box after the call, or the exception. The branch for
  \<open>dim \<noteq> 2\<close> builds 3-tuples from the z bounds; a box without z bounds there (which
  \<^verbatim>\<open>__init__\<close> never builds) would have \<^verbatim>\<open>None\<close> compared with numbers, a \<^verbatim>\<open>TypeError\<close>.
\<close>

definition update :: "bbox \<Rightarrow> pnts_arg \<Rightarrow> bbox result" where
  "update b a =
     and_then (points a) (\<lambda>pnts.
     and_then (len0 pnts) (\<lambda>n.
       if dim b \<noteq> n then Inl NotConform
       else if dim b = 2 then
         init (Pts (pnts @ [[minx b, miny b], [maxx b, maxy b]]))
       else
         (case (minz b, maxz b) of
            (Some zl, Some zh) \<Rightarrow>
              init (Pts (pnts @ [[minx b, miny b, zl], [maxx b, maxy b, zh]]))
          | _ \<Rightarrow> Inl TypeError)))"

text \<open>
  \<^verbatim>\<open>BBox.inside\<close>. The test of one point evaluates \<^verbatim>\<open>p[0]\<close>, \<^verbatim>\<open>p[1]\<close>, \<^verbatim>\<open>p[2]\<close> from
  left to right and stops at the first comparison that fails.
\<close>

datatype inside_result = Single bool | Many "bool list"

definition inside2 :: "bbox \<Rightarrow> pynum list \<Rightarrow> bool result" where
  "inside2 b p =
     and_then (getitem p 0) (\<lambda>p0.
       if num_le (minx b) p0 \<and> num_le p0 (maxx b)
       then and_then (getitem p 1) (\<lambda>p1. Inr (num_le (miny b) p1 \<and> num_le p1 (maxy b)))
       else Inr False)"

definition inside3 :: "bbox \<Rightarrow> pynum list \<Rightarrow> bool result" where
  "inside3 b p =
     and_then (getitem p 0) (\<lambda>p0.
       if num_le (minx b) p0 \<and> num_le p0 (maxx b)
       then and_then (getitem p 1) (\<lambda>p1.
         if num_le (miny b) p1 \<and> num_le p1 (maxy b)
         then and_then (getitem p 2) (\<lambda>p2.
           case minz b of
             None \<Rightarrow> Inl TypeError
           | Some zl \<Rightarrow>
               if num_le zl p2
               then (case maxz b of
                       None \<Rightarrow> Inl TypeError
                     | Some zh \<Rightarrow> Inr (num_le p2 zh))
               else Inr False)
         else Inr False)
       else Inr False)"

definition inside :: "bbox \<Rightarrow> pnts_arg \<Rightarrow> inside_result result" where
  "inside b a =
     (let single = is_single a in
      and_then (points a) (\<lambda>pnts.
      and_then (len0 pnts) (\<lambda>n.
        if n \<noteq> dim b then Inl NotConform
        else
          and_then (map_err (if dim b = 2 then inside2 b else inside3 b) pnts) (\<lambda>rv.
            if single
            then (case rv of [] \<Rightarrow> Inl IndexError | r # _ \<Rightarrow> Inr (Single r))
            else Inr (Many rv)))))"

text \<open>
  The properties \<^verbatim>\<open>width\<close> and \<^verbatim>\<open>height\<close>: a Python subtraction, which can raise when
  an \<^verbatim>\<open>int\<close> has to be converted to a \<^verbatim>\<open>float\<close>.
\<close>

definition width :: "bbox \<Rightarrow> pynum result" where
  "width b = num_sub (maxx b) (minx b)"

definition height :: "bbox \<Rightarrow> pynum result" where
  "height b = num_sub (maxy b) (miny b)"

section \<open>Notions used in the statements\<close>

text \<open>
  The group codes \<open>cs\<close> occur in this order in \<open>lines\<close>, the first at or after
  position \<open>n\<close>, each later one behind the value of the one before.
\<close>

fun codes_in_order :: "string list \<Rightarrow> string list \<Rightarrow> nat \<Rightarrow> bool" where
  "codes_in_order lines [] n = True"
| "codes_in_order lines (c # cs) n =
     list_ex (\<lambda>p. lines ! p = c \<and> codes_in_order lines cs (Suc p)) [n..<length lines]"


text \<open>
  The records of one POLYLINE with three vertices: layer \<open>lyr\<close>, flags \<open>flags\<close>, and
  per vertex the texts of x, y and the bulge.
\<close>

definition vertex_record :: "string \<Rightarrow> string \<times> string \<times> string \<Rightarrow> string list" where
  "vertex_record lyr v =
     (case v of (x, y, b) \<Rightarrow>
        [''0'', ''VERTEX'', ''8'', lyr, ''10'', x, ''20'', y, ''42'', b])"

definition polyline3 ::
  "string \<Rightarrow> string \<Rightarrow> string \<times> string \<times> string \<Rightarrow> string \<times> string \<times> string
   \<Rightarrow> string \<times> string \<times> string \<Rightarrow> string list" where
  "polyline3 lyr flags u v w =
     [''0'', ''POLYLINE'', ''8'', lyr, ''66'', ''1'', ''70'', flags]
     @ vertex_record lyr u @ vertex_record lyr v @ vertex_record lyr w
     @ [''0'', ''SEQEND'', ''8'', lyr]"

text \<open>
  The tokens the decoder searches for in a slice without \<^verbatim>\<open>LINE\<close>, \<^verbatim>\<open>ARC\<close> and \<^verbatim>\<open>CIRCLE\<close>
  records: the six markers and the group codes of the polyline and vertex records.
\<close>

definition searched :: "string list" where
  "searched = [''8'', ''10'', ''20'', ''42'', ''70'',
               ''LINE'', ''ARC'', ''CIRCLE'', ''POLYLINE'', ''VERTEX'', ''SEQEND'']"

text \<open>A stand-in for \<^verbatim>\<open>ent.arcdata\<close> in examples where every bulge is 0.\<close>

definition no_arcdata :: arcdata_fn where
  "no_arcdata sp ep a = Inl GeomError"

text \<open>The boxes that \<^verbatim>\<open>__init__\<close> builds and \<^verbatim>\<open>update\<close> grows.\<close>

inductive built :: "bbox \<Rightarrow> bool" where
  built_init: "init a = Inr b \<Longrightarrow> built b"
| built_update: "built b \<Longrightarrow> update b a = Inr b' \<Longrightarrow> built b'"

definition bounds_ok :: "bbox \<Rightarrow> bool" where
  "bounds_ok b =
     (num_le (minx b) (maxx b) \<and> num_le (miny b) (maxy b) \<and>
      (if dim b = 3
       then (case (minz b, maxz b) of (Some zl, Some zh) \<Rightarrow> num_le zl zh | _ \<Rightarrow> False)
       else True))"

text \<open>No bound of \<open>b'\<close> lies inside the bounds of \<open>b\<close>.\<close>

definition encloses :: "bbox \<Rightarrow> bbox \<Rightarrow> bool" where
  "encloses b' b =
     (num_le (minx b') (minx b) \<and> num_le (maxx b) (maxx b') \<and>
      num_le (miny b') (miny b) \<and> num_le (maxy b) (maxy b') \<and>
      (if dim b = 3
       then (case (minz b', minz b, maxz b, maxz b') of
               (Some l', Some l, Some h, Some h') \<Rightarrow> num_le l' l \<and> num_le h h'
             | _ \<Rightarrow> False)
       else True))"

text \<open>The point \<open>p\<close> lies within the bounds of \<open>b\<close>, in the dimensions \<open>b\<close> has.\<close>

definition in_bounds :: "bbox \<Rightarrow> pynum list \<Rightarrow> bool" where
  "in_bounds b p =
     (num_le (minx b) (p ! 0) \<and> num_le (p ! 0) (maxx b) \<and>
      num_le (miny b) (p ! 1) \<and> num_le (p ! 1) (maxy b) \<and>
      (if dim b = 2 then True
       else (case (minz b, maxz b) of
               (Some zl, Some zh) \<Rightarrow> num_le zl (p ! 2) \<and> num_le (p ! 2) zh
             | _ \<Rightarrow> False)))"

section \<open>Comparing and rounding\<close>

lemma flt_irrefl: "\<not> flt a a"
  by (cases a) simp_all

lemma flt_trans: "flt a b \<Longrightarrow> flt b c \<Longrightarrow> flt a c"
  by (cases a; cases b; cases c) simp_all

lemma fle_refl: "a \<noteq> NaN \<Longrightarrow> fle a a"
  by (cases a) (simp_all add: fle_def)

lemma fle_trans: "fle a b \<Longrightarrow> fle b c \<Longrightarrow> fle a c"
  by (cases a; cases b; cases c) (auto simp: fle_def)

lemma not_flt_fle: "a \<noteq> NaN \<Longrightarrow> b \<noteq> NaN \<Longrightarrow> \<not> flt a b \<Longrightarrow> fle b a"
  by (cases a; cases b) (auto simp: fle_def)

lemma flt_fle: "flt a b \<Longrightarrow> fle a b"
  by (simp add: fle_def)

lemma fle_NaN: "\<not> fle NaN a" "\<not> fle a NaN"
  by (cases a; simp add: fle_def)+

lemma fle_Fin: "fle (Fin a) (Fin b) \<longleftrightarrow> a \<le> b"
  by (auto simp: fle_def)

lemma round53_zero: "round53 0 = 0"
  by (simp add: round53_def)

lemma rnd_zero: "rnd 0 = Fin 0"
  by (simp add: rnd_def round53_zero)

lemma fatan_zero: "fmul (fatan (Fin 0)) (Fin 4) = Fin 0"
  by (simp add: fatan_def rnd_zero)

lemma ulp_pos: "0 < ulp x"
  by (simp add: ulp_def)

lemma ulp_expo: "ulp x = 2 powr of_int (expo x - 52)"
  by (simp add: ulp_def)

lemma rhe_nonneg: "0 \<le> q \<Longrightarrow> 0 \<le> rhe q"
  by (auto simp: rhe_def Let_def)

lemma round53_nonneg: "0 \<le> x \<Longrightarrow> 0 \<le> round53 x"
  using ulp_pos[of x] by (auto simp: round53_def intro!: mult_nonneg_nonneg rhe_nonneg)

lemma rnd_nonneg: "0 \<le> x \<Longrightarrow> fle (Fin 0) (rnd x)"
  using round53_nonneg[of x] by (auto simp: rnd_def Let_def fle_def)

text \<open>The equations that compute comparisons of literal numbers.\<close>

lemmas num_eval = num_lt_def num_le_def ext_def fle_def

lemma rhe_cases: "rhe q = \<lfloor>q\<rfloor> \<or> rhe q = \<lfloor>q\<rfloor> + 1"
  by (auto simp: rhe_def Let_def)

lemma rhe_of_int: "rhe (of_int n) = n"
  by (simp add: rhe_def Let_def)

lemma rhe_mono: "q \<le> q' \<Longrightarrow> rhe q \<le> rhe q'"
proof -
  assume le: "q \<le> q'"
  then have f: "\<lfloor>q\<rfloor> \<le> \<lfloor>q'\<rfloor>" by (rule floor_mono)
  show ?thesis
  proof (cases "\<lfloor>q\<rfloor> = \<lfloor>q'\<rfloor>")
    case True
    with le show ?thesis by (auto simp: rhe_def Let_def)
  next
    case False
    with f have "\<lfloor>q\<rfloor> + 1 \<le> \<lfloor>q'\<rfloor>" by simp
    moreover have "rhe q \<le> \<lfloor>q\<rfloor> + 1" using rhe_cases[of q] by auto
    moreover have "\<lfloor>q'\<rfloor> \<le> rhe q'" using rhe_cases[of q'] by auto
    ultimately show ?thesis by linarith
  qed
qed

lemma rhe_ge_int: "of_int n \<le> q \<Longrightarrow> n \<le> rhe q"
  using rhe_mono[of "of_int n" q] by (simp add: rhe_of_int)

lemma rhe_le_int: "q \<le> of_int n \<Longrightarrow> rhe q \<le> n"
  using rhe_mono[of q "of_int n"] by (simp add: rhe_of_int)

lemma rhe_near: "\<bar>of_int (rhe q) - q\<bar> \<le> 1 / 2"
proof -
  have "of_int \<lfloor>q\<rfloor> \<le> q" "q < of_int \<lfloor>q\<rfloor> + 1" by linarith+
  then show ?thesis by (auto simp: rhe_def Let_def abs_le_iff)
qed

lemma rhe_nearest: "\<bar>q - of_int n\<bar> < 1 / 2 \<Longrightarrow> rhe q = n"
proof -
  assume a: "\<bar>q - of_int n\<bar> < 1 / 2"
  have "\<bar>of_int (rhe q) - q\<bar> \<le> 1 / 2" by (rule rhe_near)
  with a have "\<bar>(of_int (rhe q) :: real) - of_int n\<bar> < 1" by linarith
  then have "\<bar>(of_int (rhe q - n) :: real)\<bar> < 1" by simp
  then have "\<bar>rhe q - n\<bar> < 1" by linarith
  then show ?thesis by linarith
qed

lemma rhe_minus: "rhe (- q) = - rhe q"
proof (cases "q = of_int \<lfloor>q\<rfloor>")
  case True
  then obtain n where "q = of_int n" ..
  then show ?thesis by (simp add: rhe_of_int flip: of_int_minus)
next
  case False
  have lo: "of_int \<lfloor>q\<rfloor> < q"
    by (rule le_neq_trans) (use False in auto)
  have "of_int (- \<lfloor>q\<rfloor> - 1) \<le> - q" by (simp; linarith)
  moreover have "- q < of_int (- \<lfloor>q\<rfloor> - 1) + 1" using lo by simp
  ultimately have fl: "\<lfloor>- q\<rfloor> = - \<lfloor>q\<rfloor> - 1" by (rule floor_unique)
  define f where "f = \<lfloor>q\<rfloor>"
  define d where "d = q - of_int f"
  have d: "0 < d" "d < 1" using False unfolding d_def f_def by linarith+
  have "- q - of_int (- f - 1) = 1 - d" by (simp add: d_def)
  then show ?thesis
    using d unfolding rhe_def Let_def fl f_def[symmetric] d_def[symmetric]
    by (auto simp: d_def)
qed

lemma ulp_minus: "ulp (- x) = ulp x"
  by (simp add: ulp_def expo_def)

lemma ulp_abs: "ulp \<bar>x\<bar> = ulp x"
  by (simp add: ulp_def expo_def)

lemma two_powr_int_add: "2 powr of_int (a + b) = (2::real) powr of_int a * 2 powr of_int b"
  by (simp add: powr_add)

lemma ulp_upper:
  assumes "x \<noteq> 0"
  shows "\<bar>x\<bar> < 2 ^ 53 * ulp x"
proof -
  define l where "l = log 2 \<bar>x\<bar>"
  define E where "E = max \<lfloor>l\<rfloor> (- 1022)"
  have x: "\<bar>x\<bar> = 2 powr l" using assms by (simp add: l_def)
  have "l < of_int (\<lfloor>l\<rfloor> + 1)" by linarith
  also have "\<dots> \<le> of_int (E + 1)" unfolding E_def by simp
  finally have "2 powr l < 2 powr of_int (E + 1)" by simp
  also have "of_int (E + 1) = of_int (E - 52) + (53::real)" by simp
  also have "2 powr (of_int (E - 52) + (53::real)) = 2 powr of_int (E - 52) * 2 ^ 53"
    by (simp only: powr_add) simp
  finally have "\<bar>x\<bar> < 2 powr of_int (E - 52) * 2 ^ 53" by (simp only: x)
  moreover have "ulp x = 2 powr of_int (E - 52)" by (simp add: ulp_def expo_def E_def l_def)
  ultimately show ?thesis by (simp add: mult.commute)
qed

lemma ulp_lower:
  assumes "2 powr (- 1022) \<le> \<bar>x\<bar>"
  shows "2 ^ 52 * ulp x \<le> \<bar>x\<bar>"
proof -
  define l where "l = log 2 \<bar>x\<bar>"
  have pos: "0 < \<bar>x\<bar>" using assms by (smt (verit) powr_gt_zero)
  then have x: "\<bar>x\<bar> = 2 powr l" by (simp add: l_def)
  from assms have "- 1022 \<le> l" unfolding x by simp
  then have "- 1022 \<le> \<lfloor>l\<rfloor>" by linarith
  then have E: "max \<lfloor>l\<rfloor> (- 1022) = \<lfloor>l\<rfloor>" by simp
  have u: "ulp x = 2 powr of_int (\<lfloor>l\<rfloor> - 52)"
    using E by (simp add: ulp_def expo_def l_def)
  have "2 powr (of_int (\<lfloor>l\<rfloor> - 52) + (52::real)) = 2 powr of_int (\<lfloor>l\<rfloor> - 52) * 2 ^ 52"
    by (simp only: powr_add) simp
  then have "2 ^ 52 * ulp x = 2 powr (of_int (\<lfloor>l\<rfloor> - 52) + (52::real))"
    by (simp add: u mult.commute)
  also have "\<dots> = 2 powr of_int \<lfloor>l\<rfloor>" by simp
  also have "\<dots> \<le> 2 powr l" by simp
  finally show ?thesis by (simp only: x)
qed

lemma expo_mono:
  assumes "x \<noteq> 0" "\<bar>x\<bar> \<le> \<bar>y\<bar>"
  shows "expo x \<le> expo y"
proof -
  from assms have "log 2 \<bar>x\<bar> \<le> log 2 \<bar>y\<bar>" by simp
  then have "\<lfloor>log 2 \<bar>x\<bar>\<rfloor> \<le> \<lfloor>log 2 \<bar>y\<bar>\<rfloor>" by (rule floor_mono)
  then show ?thesis by (simp add: expo_def)
qed

lemma ulp_mono: "x \<noteq> 0 \<Longrightarrow> \<bar>x\<bar> \<le> \<bar>y\<bar> \<Longrightarrow> ulp x \<le> ulp y"
  using expo_mono[of x y] by (simp add: ulp_expo)

lemma ulp_step:
  assumes "ulp x < ulp y"
  shows "2 * ulp x \<le> ulp y"
proof -
  from assms have "expo x - 52 < expo y - 52" by (simp add: ulp_expo)
  then have "expo x - 52 + 1 \<le> expo y - 52" by simp
  then have a: "2 powr of_int (expo x - 52 + 1) \<le> (2::real) powr of_int (expo y - 52)"
    by (simp only: powr_le_cancel_iff of_int_le_iff)
  have "(2::real) powr (of_int (expo x - 52) + 1) = 2 powr of_int (expo x - 52) * 2 powr 1"
    by (rule powr_add)
  moreover have "of_int (expo x - 52 + 1) = of_int (expo x - 52) + (1::real)" by simp
  ultimately have b: "2 powr of_int (expo x - 52 + 1) = 2 * (2::real) powr of_int (expo x - 52)"
    by (simp only: powr_one mult.commute)
  show ?thesis unfolding ulp_expo using a b by linarith
qed

lemma ulp_normal:
  assumes "ulp x < ulp y" "y \<noteq> 0"
  shows "2 powr (- 1022) \<le> \<bar>y\<bar>"
proof -
  from assms have "expo x < expo y" by (simp add: ulp_expo)
  moreover have "- 1022 \<le> expo x" by (simp add: expo_def)
  ultimately have e: "- 1022 < expo y" by simp
  then have f: "expo y = \<lfloor>log 2 \<bar>y\<bar>\<rfloor>" by (auto simp: expo_def max_def split: if_splits)
  note y0 = assms(2)
  from e f have "- 1022 \<le> log 2 \<bar>y\<bar>" by linarith
  then have "2 powr (- 1022) \<le> 2 powr log 2 \<bar>y\<bar>" by simp
  with y0 show ?thesis by simp
qed

lemma round53_minus: "round53 (- x) = - round53 x"
  by (simp add: round53_def ulp_minus rhe_minus)

lemma round53_upper:
  assumes "0 < x"
  shows "round53 x \<le> 2 ^ 53 * ulp x"
proof -
  have "x / ulp x \<le> of_int (2 ^ 53)"
    using ulp_upper[of x] assms ulp_pos[of x] by (simp add: pos_divide_le_eq)
  then have "rhe (x / ulp x) \<le> 2 ^ 53" by (rule rhe_le_int)
  then have "of_int (rhe (x / ulp x)) \<le> (2 ^ 53 :: real)"
    by (metis of_int_le_iff of_int_numeral of_int_power)
  then show ?thesis
    using assms ulp_pos[of x] by (simp add: round53_def)
qed

lemma round53_lower:
  assumes "0 < x" "2 powr (- 1022) \<le> x"
  shows "2 ^ 52 * ulp x \<le> round53 x"
proof -
  have "of_int (2 ^ 52) \<le> x / ulp x"
    using ulp_lower[of x] assms ulp_pos[of x] by (simp add: pos_le_divide_eq)
  then have "2 ^ 52 \<le> rhe (x / ulp x)" by (rule rhe_ge_int)
  then have "(2 ^ 52 :: real) \<le> of_int (rhe (x / ulp x))"
    by (metis of_int_le_iff of_int_numeral of_int_power)
  then show ?thesis
    using assms ulp_pos[of x] by (simp add: round53_def)
qed

lemma round53_mono_pos:
  assumes "0 < x" "x \<le> y"
  shows "round53 x \<le> round53 y"
proof -
  from assms have y: "0 < y" by simp
  from assms have "ulp x \<le> ulp y" by (intro ulp_mono) simp_all
  then consider "ulp x = ulp y" | "ulp x < ulp y" by linarith
  then show ?thesis
  proof cases
    case 1
    from assms ulp_pos[of y] have "x / ulp y \<le> y / ulp y" by (simp add: divide_right_mono)
    then have "rhe (x / ulp y) \<le> rhe (y / ulp y)" by (rule rhe_mono)
    then have "(of_int (rhe (x / ulp y)) :: real) \<le> of_int (rhe (y / ulp y))" by simp
    then have "of_int (rhe (x / ulp y)) * ulp y \<le> of_int (rhe (y / ulp y)) * ulp y"
      using ulp_pos[of y] by (simp add: mult_right_mono)
    with assms y 1 show ?thesis by (simp add: round53_def)
  next
    case 2
    from ulp_normal[OF 2] y have "2 powr (- 1022) \<le> y" by simp
    from round53_lower[OF y this] have "2 ^ 52 * ulp y \<le> round53 y" .
    moreover from ulp_step[OF 2] have "2 ^ 53 * ulp x \<le> 2 ^ 52 * ulp y" by simp
    moreover note round53_upper[OF assms(1)]
    ultimately show ?thesis by linarith
  qed
qed

lemma round53_pos: "0 < x \<Longrightarrow> 0 \<le> round53 x"
  by (simp add: round53_nonneg)

lemma round53_mono:
  assumes "x \<le> y"
  shows "round53 x \<le> round53 y"
proof -
  consider "0 < x" | "x \<le> 0" "0 \<le> y" | "y < 0" by linarith
  then show ?thesis
  proof cases
    case 1
    from 1 assms show ?thesis by (rule round53_mono_pos)
  next
    case 2
    from 2(1) have "0 \<le> round53 (- x)" by (intro round53_nonneg) simp
    then have "round53 x \<le> 0" by (simp add: round53_minus)
    moreover from 2(2) have "0 \<le> round53 y" by (rule round53_nonneg)
    ultimately show ?thesis by simp
  next
    case 3
    with assms have "0 < - y" "- y \<le> - x" by simp_all
    from round53_mono_pos[OF this] show ?thesis by (simp add: round53_minus)
  qed
qed

lemma rnd_mono: "x \<le> y \<Longrightarrow> fle (rnd x) (rnd y)"
  using round53_mono[of x y] by (auto simp: rnd_def Let_def fle_def)

lemma expo_eq:
  assumes "2 powr of_int e \<le> \<bar>x\<bar>" "\<bar>x\<bar> < 2 powr of_int (e + 1)" "- 1022 \<le> e"
  shows "expo x = e"
proof -
  have pos: "0 < \<bar>x\<bar>" using assms(1) by (smt (verit) powr_gt_zero)
  from assms(1) pos have "of_int e \<le> log 2 \<bar>x\<bar>" by (simp add: le_log_iff)
  moreover from assms(2) pos have "log 2 \<bar>x\<bar> < of_int e + 1" by (simp add: log_less_iff)
  ultimately have "\<lfloor>log 2 \<bar>x\<bar>\<rfloor> = e" by (rule floor_unique)
  with assms(3) show ?thesis by (simp add: expo_def)
qed

lemma two_powr_nat: "0 \<le> j \<Longrightarrow> (2::real) powr of_int j = 2 ^ nat j"
  by (simp add: powr_real_of_int)

lemma round53_exact:
  assumes "\<bar>m\<bar> < 2 ^ 53" "- 1074 \<le> k"
  shows "round53 (of_int m * 2 powr of_int k) = of_int m * 2 powr of_int k"
proof (cases "m = 0")
  case True
  then show ?thesis by (simp add: round53_zero)
next
  case False
  define v :: real where "v = of_int m * 2 powr of_int k"
  have v0: "v \<noteq> 0" using False by (simp add: v_def)
  have absv: "\<bar>v\<bar> = of_int \<bar>m\<bar> * 2 powr of_int k" by (simp add: v_def abs_mult)
  have "of_int \<bar>m\<bar> < (2 ^ 53 :: real)"
    using assms(1) by (metis of_int_less_iff of_int_numeral of_int_power)
  then have "\<bar>v\<bar> < 2 ^ 53 * 2 powr of_int k" unfolding absv by simp
  also have "\<dots> = 2 powr (of_int k + 53)" by (simp add: powr_add)
  finally have "log 2 \<bar>v\<bar> < of_int k + 53" using v0 by (simp add: log_less_iff)
  then have "\<lfloor>log 2 \<bar>v\<bar>\<rfloor> < k + 53" by linarith
  with assms(2) have ue: "expo v - 52 \<le> k" by (simp add: expo_def)
  define j where "j = k - (expo v - 52)"
  have j: "0 \<le> j" using ue by (simp add: j_def)
  have "2 powr of_int k = 2 powr of_int j * ulp v"
    unfolding ulp_expo j_def by (simp flip: powr_add)
  then have split: "v = of_int (m * 2 ^ nat j) * ulp v"
    by (simp add: v_def two_powr_nat[OF j])
  have "v / ulp v = of_int (m * 2 ^ nat j)"
    using ulp_pos[of v] by (subst split) simp
  then have "rhe (v / ulp v) = m * 2 ^ nat j" by (simp only: rhe_of_int)
  then have "round53 v = of_int (m * 2 ^ nat j) * ulp v" using v0 by (simp add: round53_def)
  also have "\<dots> = v" by (rule split[symmetric])
  finally show ?thesis by (simp only: v_def)
qed

lemma is_double_int: "\<bar>m\<bar> < 2 ^ 53 \<Longrightarrow> is_double (of_int m)"
proof -
  assume a: "\<bar>m\<bar> < 2 ^ 53"
  from round53_exact[OF a, of 0] have "round53 (of_int m) = of_int m" by simp
  moreover have "\<bar>of_int m :: real\<bar> < 2 ^ 53"
    using a by (metis of_int_abs of_int_less_iff of_int_numeral of_int_power)
  then have "\<bar>of_int m :: real\<bar> < 2 ^ 1024" by simp
  ultimately show ?thesis by (simp add: is_double_def)
qed

lemma rnd_exact: "is_double r \<Longrightarrow> rnd r = Fin r"
  by (auto simp: is_double_def rnd_def Let_def)

lemma round53_err: "\<bar>round53 x - x\<bar> \<le> ulp x / 2"
proof (cases "x = 0")
  case True
  then show ?thesis using ulp_pos[of x] by (simp add: round53_zero)
next
  case False
  have "\<bar>of_int (rhe (x / ulp x)) - x / ulp x\<bar> \<le> 1 / 2" by (rule rhe_near)
  then have "\<bar>of_int (rhe (x / ulp x)) - x / ulp x\<bar> * ulp x \<le> 1 / 2 * ulp x"
    using ulp_pos[of x] by (simp add: mult_right_mono)
  moreover have "\<bar>of_int (rhe (x / ulp x)) - x / ulp x\<bar> * ulp x
      = \<bar>of_int (rhe (x / ulp x)) * ulp x - x\<bar>"
  proof -
    have "\<bar>of_int (rhe (x / ulp x)) - x / ulp x\<bar> * ulp x
        = \<bar>(of_int (rhe (x / ulp x)) - x / ulp x) * ulp x\<bar>"
      using ulp_pos[of x] by (simp add: abs_mult)
    also have "(of_int (rhe (x / ulp x)) - x / ulp x) * ulp x
        = of_int (rhe (x / ulp x)) * ulp x - x"
      using ulp_pos[of x] by (simp add: left_diff_distrib)
    finally show ?thesis .
  qed
  ultimately show ?thesis using False by (simp add: round53_def)
qed

section \<open>Searching and looping\<close>

lemma find_from_None: "find_from x ys n = None \<longleftrightarrow> x \<notin> set ys"
  by (induction ys arbitrary: n) auto

lemma find_from_Some:
  "find_from x ys n = Some j \<Longrightarrow>
     n \<le> j \<and> j < n + length ys \<and> ys ! (j - n) = x \<and>
     (\<forall>q. n \<le> q \<and> q < j \<longrightarrow> ys ! (q - n) \<noteq> x)"
proof (induction ys arbitrary: n)
  case Nil
  then show ?case by simp
next
  case (Cons y ys)
  show ?case
  proof (cases "y = x")
    case True
    with Cons.prems show ?thesis by simp
  next
    case False
    with Cons.prems have "find_from x ys (Suc n) = Some j" by simp
    from Cons.IH[OF this] False show ?thesis
      by (auto simp: nth_Cons' Suc_diff_le less_Suc_eq_le split: if_splits)
  qed
qed

lemma index_from_Inr:
  assumes "index_from xs x s = Inr j"
  shows "s \<le> j" "j < length xs" "xs ! j = x" "\<And>q. s \<le> q \<Longrightarrow> q < j \<Longrightarrow> xs ! q \<noteq> x"
proof -
  from assms have f: "find_from x (drop s xs) s = Some j"
    by (auto simp: index_from_def split: option.splits)
  from find_from_Some[OF f] show "s \<le> j" "j < length xs" "xs ! j = x"
    by auto
  fix q assume "s \<le> q" "q < j"
  with find_from_Some[OF f] show "xs ! q \<noteq> x" by auto
qed

lemma index_from_Inl:
  assumes "index_from xs x s = Inl e"
  shows "e = NotInList x" "\<And>q. s \<le> q \<Longrightarrow> q < length xs \<Longrightarrow> xs ! q \<noteq> x"
proof -
  from assms show "e = NotInList x"
    by (auto simp: index_from_def split: option.splits)
  from assms have notin: "x \<notin> set (drop s xs)"
    by (auto simp: index_from_def find_from_None split: option.splits)
  fix q assume q: "s \<le> q" "q < length xs"
  then have "q - s < length (drop s xs)" by simp
  then have "drop s xs ! (q - s) \<in> set (drop s xs)" by (rule nth_mem)
  moreover from q have "drop s xs ! (q - s) = xs ! q" by simp
  ultimately show "xs ! q \<noteq> x" using notin by metis
qed

lemma index_from_absent:
  assumes "\<forall>q. s \<le> q \<and> q < length xs \<longrightarrow> xs ! q \<noteq> x"
  shows "index_from xs x s = Inl (NotInList x)"
proof (cases "index_from xs x s")
  case (Inl e)
  with index_from_Inl(1)[OF Inl] show ?thesis by simp
next
  case (Inr j)
  from index_from_Inr(1-3)[OF Inr] assms show ?thesis by blast
qed

lemma index_from_present:
  assumes "s \<le> q" "q < length xs" "xs ! q = x"
  shows "\<exists>j. index_from xs x s = Inr j \<and> j \<le> q"
proof (cases "index_from xs x s")
  case (Inl e)
  from index_from_Inl(2)[OF Inl assms(1,2)] assms(3) show ?thesis by simp
next
  case (Inr j)
  from index_from_Inr(4)[OF Inr assms(1)] assms(3) have "\<not> q < j" by blast
  with Inr show ?thesis by simp
qed

lemma index_from_first:
  assumes "s \<le> q" "q < length xs" "xs ! q = x" "\<forall>j. s \<le> j \<and> j < q \<longrightarrow> xs ! j \<noteq> x"
  shows "index_from xs x s = Inr q"
proof -
  from index_from_present[OF assms(1-3)] obtain j where
    j: "index_from xs x s = Inr j" "j \<le> q" by blast
  from index_from_Inr(1,3)[OF j(1)] assms(4) have "\<not> j < q" by blast
  with j show ?thesis by simp
qed

lemma map_err_Inr:
  "map_err f xs = Inr ys \<Longrightarrow> list_all2 (\<lambda>x y. f x = Inr y) xs ys"
  by (induction xs arbitrary: ys) (auto split: sum.splits)





lemma sorted_enumerate_eq: "sorted (enumerate_eq lines s)"
  by (simp add: enumerate_eq_def sorted_wrt_filter)

section \<open>The section markers\<close>

text \<open>
  Claim C7. A file whose lines, once stripped, hold an \<^verbatim>\<open>ENTITIES\<close> marker (the first
  one at line \<open>p\<close>) and no \<^verbatim>\<open>ENDSEC\<close> marker behind it, is not decoded: \<open>reader\<close>
  returns, and what it returns is the \<^verbatim>\<open>ValueError\<close> of the search for \<^verbatim>\<open>ENDSEC\<close>
  (the spec's MalformedSection), not a list of entities and not another exception.
  \<open>reader\<close> is a total function, so the call ends on every input.
\<close>

theorem reader_without_ENDSEC:
  assumes "p < length raw" and "strip (raw ! p) = ''ENTITIES''"
    and "\<forall>j. j < p \<longrightarrow> strip (raw ! j) \<noteq> ''ENTITIES''"
    and "\<forall>j. p < j \<and> j < length raw \<longrightarrow> strip (raw ! j) \<noteq> ''ENDSEC''"
  shows "reader fl pint arcdata raw = Inl (NotInList ''ENDSEC'')"
proof -
  let ?data = "map strip raw"
  have "index_from ?data ''ENTITIES'' 0 = Inr p"
    using assms(1-3) by (intro index_from_first) auto
  moreover have "index_from ?data ''ENDSEC'' (p + 1) = Inl (NotInList ''ENDSEC'')"
    using assms(4) by (intro index_from_absent) auto
  ultimately show ?thesis
    by (simp add: reader_def entities_slice_def and_then_def)
qed

theorem reader_without_ENDSEC_witness:
  "reader (map_of []) (map_of []) no_arcdata
     [''  0'', ''SECTION'', ''  2'', ''ENTITIES'' @ [CHR 0x0A], ''  0'', ''LINE'', ''  8'', ''0'']
   = Inl (NotInList ''ENDSEC'')"
proof (rule reader_without_ENDSEC[where p = 3])
  let ?raw = "[''  0'', ''SECTION'', ''  2'', ''ENTITIES'' @ [CHR 0x0A], ''  0'', ''LINE'',
               ''  8'', ''0'']"
  show "3 < length ?raw" by simp
  show "strip (?raw ! 3) = ''ENTITIES''" by (simp add: strip_def isspace_def)
  show "\<forall>j. j < 3 \<longrightarrow> strip (?raw ! j) \<noteq> ''ENTITIES''"
  proof (intro allI impI)
    fix j :: nat assume "j < 3"
    then consider "j = 0" | "j = 1" | "j = 2" by linarith
    then show "strip (?raw ! j) \<noteq> ''ENTITIES''"
      by cases (simp_all add: strip_def isspace_def)
  qed
  show "\<forall>j. 3 < j \<and> j < length ?raw \<longrightarrow> strip (?raw ! j) \<noteq> ''ENDSEC''"
  proof (intro allI impI)
    fix j :: nat assume "3 < j \<and> j < length ?raw"
    then consider "j = 4" | "j = 5" | "j = 6" | "j = 7" by force
    then show "strip (?raw ! j) \<noteq> ''ENDSEC''"
      by cases (simp_all add: strip_def isspace_def)
  qed
qed

section \<open>Bounding boxes\<close>

lemma length_zip_star: "ps \<noteq> [] \<Longrightarrow> length (zip_star ps) = Min (set (map length ps))"
  by (cases ps) (simp_all add: zip_star_def flip: Min.set_eq_fold)

lemma nth_zip_star:
  "k < length (zip_star ps) \<Longrightarrow> zip_star ps ! k = map (\<lambda>q. q ! k) ps"
  by (cases ps) (simp_all add: zip_star_def)

lemma length_zip_star_hd:
  assumes "ps \<noteq> []" "length (hd ps) = n"
  shows "length (zip_star ps) = n \<longleftrightarrow> (\<forall>p \<in> set ps. n \<le> length p)"
proof -
  have "hd ps \<in> set ps" using assms(1) by simp
  then have "n \<in> set (map length ps)" using assms(2) by force
  then show ?thesis
    using assms(1) by (auto simp: length_zip_star Min_eq_iff)
qed

lemma zip_star_2:
  assumes "length (zip_star ps) = 2"
  shows "zip_star ps = [map (\<lambda>q. q ! 0) ps, map (\<lambda>q. q ! 1) ps]"
proof (rule nth_equalityI)
  show "length (zip_star ps) = length [map (\<lambda>q. q ! 0) ps, map (\<lambda>q. q ! 1) ps]"
    using assms by simp
  fix i assume "i < length (zip_star ps)"
  with assms have "i = 0 \<or> i = 1" by auto
  then show "zip_star ps ! i = [map (\<lambda>q. q ! 0) ps, map (\<lambda>q. q ! 1) ps] ! i"
    using nth_zip_star[of i ps] assms by auto
qed

lemma zip_star_3:
  assumes "length (zip_star ps) = 3"
  shows "zip_star ps = [map (\<lambda>q. q ! 0) ps, map (\<lambda>q. q ! 1) ps, map (\<lambda>q. q ! 2) ps]"
proof (rule nth_equalityI)
  show "length (zip_star ps) = length [map (\<lambda>q. q ! 0) ps, map (\<lambda>q. q ! 1) ps, map (\<lambda>q. q ! 2) ps]"
    using assms by simp
  fix i assume "i < length (zip_star ps)"
  with assms have "i = 0 \<or> i = 1 \<or> i = 2" by auto
  then show "zip_star ps ! i = [map (\<lambda>q. q ! 0) ps, map (\<lambda>q. q ! 1) ps, map (\<lambda>q. q ! 2) ps] ! i"
    using nth_zip_star[of i ps] assms by auto
qed

text \<open>What \<open>init\<close> returns for a list of points, by the length of the first point.\<close>

lemma init_Pts_2:
  assumes "ps \<noteq> []" "length (hd ps) = 2"
  shows "init (Pts ps) =
     (if \<forall>p \<in> set ps. 2 \<le> length p
      then Inr \<lparr>minx = py_min (map (\<lambda>q. q ! 0) ps), maxx = py_max (map (\<lambda>q. q ! 0) ps),
                miny = py_min (map (\<lambda>q. q ! 1) ps), maxy = py_max (map (\<lambda>q. q ! 1) ps),
                minz = None, maxz = None, dim = 2\<rparr>
      else Inl BadUnpack)"
proof (cases "\<forall>p \<in> set ps. 2 \<le> length p")
  case True
  then have "length (zip_star ps) = 2"
    using length_zip_star_hd[OF assms] by simp
  from zip_star_2[OF this] True assms show ?thesis
    by (cases ps) (simp_all add: init_def is_empty_def points_def len0_def and_then_def)
next
  case False
  then have "length (zip_star ps) \<noteq> 2"
    using length_zip_star_hd[OF assms] by simp
  then have "(case zip_star ps of [x, y] \<Rightarrow> Inr (f x y) | _ \<Rightarrow> Inl BadUnpack) = Inl BadUnpack" for f :: "pynum list \<Rightarrow> pynum list \<Rightarrow> bbox"
    by (auto split: list.splits)
  with False assms show ?thesis
    by (cases ps) (simp_all add: init_def is_empty_def points_def len0_def and_then_def)
qed

lemma init_Pts_3:
  assumes "ps \<noteq> []" "length (hd ps) = 3"
  shows "init (Pts ps) =
     (if \<forall>p \<in> set ps. 3 \<le> length p
      then Inr \<lparr>minx = py_min (map (\<lambda>q. q ! 0) ps), maxx = py_max (map (\<lambda>q. q ! 0) ps),
                miny = py_min (map (\<lambda>q. q ! 1) ps), maxy = py_max (map (\<lambda>q. q ! 1) ps),
                minz = Some (py_min (map (\<lambda>q. q ! 2) ps)),
                maxz = Some (py_max (map (\<lambda>q. q ! 2) ps)), dim = 3\<rparr>
      else Inl BadUnpack)"
proof (cases "\<forall>p \<in> set ps. 3 \<le> length p")
  case True
  then have "length (zip_star ps) = 3"
    using length_zip_star_hd[OF assms] by simp
  from zip_star_3[OF this] True assms show ?thesis
    by (cases ps) (simp_all add: init_def is_empty_def points_def len0_def and_then_def)
next
  case False
  then have "length (zip_star ps) \<noteq> 3"
    using length_zip_star_hd[OF assms] by simp
  then have "(case zip_star ps of [x, y, z] \<Rightarrow> Inr (f x y z) | _ \<Rightarrow> Inl BadUnpack) = Inl BadUnpack" for f :: "pynum list \<Rightarrow> pynum list \<Rightarrow> pynum list \<Rightarrow> bbox"
    by (auto split: list.splits)
  with False assms show ?thesis
    by (cases ps) (simp_all add: init_def is_empty_def points_def len0_def and_then_def)
qed

lemma init_Pts_other:
  assumes "ps \<noteq> []" "length (hd ps) \<noteq> 2" "length (hd ps) \<noteq> 3"
  shows "init (Pts ps) = Inl BadTuples"
  using assms by (cases ps) (simp_all add: init_def is_empty_def points_def len0_def and_then_def)

lemma init_Pts_Nil: "init (Pts []) = Inl NoPoints"
  by (simp add: init_def is_empty_def)

lemma init_Bare: "init (Bare p) =
   (if p = [] then Inl NoPoints else if length p = 2 \<or> length p = 3 then init (Pts [p]) else Inl TypeError)"
  by (auto simp add: init_def is_empty_def points_def is_single_def and_then_def)

subsection \<open>The shape of a box\<close>

lemma init_Inr_cases:
  assumes "init a = Inr b"
  obtains ps where "ps \<noteq> []" "length (hd ps) = 2" "\<forall>p \<in> set ps. 2 \<le> length p"
      "b = \<lparr>minx = py_min (map (\<lambda>q. q ! 0) ps), maxx = py_max (map (\<lambda>q. q ! 0) ps),
            miny = py_min (map (\<lambda>q. q ! 1) ps), maxy = py_max (map (\<lambda>q. q ! 1) ps),
            minz = None, maxz = None, dim = 2\<rparr>"
      "a = Pts ps \<or> a = Bare (hd ps) \<and> ps = [hd ps]"
  | ps where "ps \<noteq> []" "length (hd ps) = 3" "\<forall>p \<in> set ps. 3 \<le> length p"
      "b = \<lparr>minx = py_min (map (\<lambda>q. q ! 0) ps), maxx = py_max (map (\<lambda>q. q ! 0) ps),
            miny = py_min (map (\<lambda>q. q ! 1) ps), maxy = py_max (map (\<lambda>q. q ! 1) ps),
            minz = Some (py_min (map (\<lambda>q. q ! 2) ps)),
            maxz = Some (py_max (map (\<lambda>q. q ! 2) ps)), dim = 3\<rparr>"
      "a = Pts ps \<or> a = Bare (hd ps) \<and> ps = [hd ps]"
proof -
  obtain ps where ps: "init (Pts ps) = Inr b" "a = Pts ps \<or> a = Bare (hd ps) \<and> ps = [hd ps]"
  proof (cases a)
    case (Bare p)
    with assms have "init (Pts [p]) = Inr b"
      by (auto simp: init_Bare split: if_splits)
    with Bare that[of "[p]"] show ?thesis by simp
  next
    case (Pts ps)
    with assms that[of ps] show ?thesis by simp
  qed
  from ps(1) have ne: "ps \<noteq> []" by (auto simp: init_Pts_Nil)
  consider "length (hd ps) = 2" | "length (hd ps) = 3"
    | "length (hd ps) \<noteq> 2" "length (hd ps) \<noteq> 3" by blast
  then show ?thesis
  proof cases
    case 1
    with ps ne that(1)[of ps] show ?thesis
      by (auto simp: init_Pts_2 split: if_splits)
  next
    case 2
    with ps ne that(2)[of ps] show ?thesis
      by (auto simp: init_Pts_3 split: if_splits)
  next
    case 3
    with ps ne show ?thesis by (simp add: init_Pts_other)
  qed
qed

lemma init_shape:
  assumes "init a = Inr b"
  shows "dim b = 2 \<and> minz b = None \<and> maxz b = None \<or>
         dim b = 3 \<and> (\<exists>zl zh. minz b = Some zl \<and> maxz b = Some zh)"
  using assms by (cases rule: init_Inr_cases) simp_all

lemma update_Inr:
  assumes "update b a = Inr b'"
  obtains ps where "points a = Inr ps" "ps \<noteq> []" "length (hd ps) = 2" "dim b = 2"
      "init (Pts (ps @ [[minx b, miny b], [maxx b, maxy b]])) = Inr b'"
  | ps zl zh where "points a = Inr ps" "ps \<noteq> []" "length (hd ps) = dim b" "dim b \<noteq> 2"
      "minz b = Some zl" "maxz b = Some zh"
      "init (Pts (ps @ [[minx b, miny b, zl], [maxx b, maxy b, zh]])) = Inr b'"
proof -
  from assms obtain ps where ps: "points a = Inr ps"
    by (cases "points a") (simp_all add: update_def and_then_def)
  with assms have ne: "ps \<noteq> []"
    by (cases ps) (simp_all add: update_def and_then_def len0_def)
  with assms ps have len: "length (hd ps) = dim b"
    by (cases ps) (auto simp: update_def and_then_def len0_def split: if_splits)
  show ?thesis
  proof (cases "dim b = 2")
    case True
    with assms ps ne len that(1)[of ps] show ?thesis
      by (cases ps) (auto simp: update_def and_then_def len0_def)
  next
    case False
    with assms ps ne len that(2)[of ps] show ?thesis
      by (cases ps) (auto simp: update_def and_then_def len0_def split: option.splits)
  qed
qed

lemma built_shape:
  "built b \<Longrightarrow> dim b = 2 \<and> minz b = None \<and> maxz b = None \<or>
         dim b = 3 \<and> (\<exists>zl zh. minz b = Some zl \<and> maxz b = Some zh)"
proof (induction rule: built.induct)
  case (built_init a b)
  then show ?case by (rule init_shape)
next
  case (built_update b a b')
  from built_update(2) show ?case
    by (rule update_Inr) (auto dest: init_shape)
qed

subsection \<open>When a box can be built\<close>

text \<open>
  Claim C8, as amended. \<open>init\<close> looks at the length of the first point only and takes
  the columns of \<^verbatim>\<open>zip(*pnts)\<close>, which are cut at the shortest point. On a list of
  points it succeeds exactly when the list is not empty, the first point has 2 or 3
  components and no point has fewer components than the first (components beyond
  those of the first point are ignored). It fails with a \<^verbatim>\<open>ValueError\<close> when some point
  is shorter than the first, and on the empty list.
\<close>

theorem init_succeeds_iff:
  "((\<exists>b. init (Pts ps) = Inr b) \<longleftrightarrow>
      ps \<noteq> [] \<and> (length (hd ps) = 2 \<or> length (hd ps) = 3) \<and>
      (\<forall>p \<in> set ps. length (hd ps) \<le> length p)) \<and>
   ((\<exists>p \<in> set ps. length p < length (hd ps)) \<longrightarrow> (\<exists>e. init (Pts ps) = Inl e \<and> is_ValueError e)) \<and>
   init (Pts []) = Inl NoPoints"
proof (intro conjI)
  show "init (Pts []) = Inl NoPoints" by (rule init_Pts_Nil)
  consider "ps = []" | "ps \<noteq> []" "length (hd ps) = 2" | "ps \<noteq> []" "length (hd ps) = 3"
    | "ps \<noteq> []" "length (hd ps) \<noteq> 2" "length (hd ps) \<noteq> 3" by blast
  note cases = this
  show "(\<exists>b. init (Pts ps) = Inr b) \<longleftrightarrow>
      ps \<noteq> [] \<and> (length (hd ps) = 2 \<or> length (hd ps) = 3) \<and>
      (\<forall>p \<in> set ps. length (hd ps) \<le> length p)"
    using cases
  proof cases
    case 1
    then show ?thesis by (simp add: init_Pts_Nil)
  next
    case 2
    then show ?thesis by (simp add: init_Pts_2)
  next
    case 3
    then show ?thesis by (simp add: init_Pts_3)
  next
    case 4
    then show ?thesis by (simp add: init_Pts_other)
  qed
  show "(\<exists>p \<in> set ps. length p < length (hd ps)) \<longrightarrow> (\<exists>e. init (Pts ps) = Inl e \<and> is_ValueError e)"
    using cases
  proof cases
    case 1
    then show ?thesis by simp
  next
    case 2
    then show ?thesis by (auto simp: init_Pts_2)
  next
    case 3
    then show ?thesis by (auto simp: init_Pts_3)
  next
    case 4
    then show ?thesis by (simp add: init_Pts_other)
  qed
qed

theorem init_succeeds_iff_witness:
  "(\<exists>b. init (Pts [[PyInt 0, PyInt 0, PyInt 7], [PyInt 4, PyInt 2, PyInt 1]]) = Inr b) \<and>
   (\<exists>e. init (Pts [[PyInt 0, PyInt 0, PyInt 7], [PyInt 4, PyInt 2]]) = Inl e \<and> is_ValueError e)"
  using init_succeeds_iff[of "[[PyInt 0, PyInt 0, PyInt 7], [PyInt 4, PyInt 2, PyInt 1]]"] init_succeeds_iff[of "[[PyInt 0, PyInt 0, PyInt 7], [PyInt 4, PyInt 2]]"]
  by simp

text \<open>
  A list that mixes a 2-tuple and a 3-tuple, the 2-tuple first, is accepted: the claim
  as stated (failure on every mixed list) does not hold.
\<close>

theorem init_mixed_counterexample:
  "init (Pts [[PyInt 1, PyInt 2], [PyInt 3, PyInt 4, PyInt 5]]) =
     Inr \<lparr>minx = PyInt 1, maxx = PyInt 3, miny = PyInt 2, maxy = PyInt 4, minz = None, maxz = None, dim = 2\<rparr>"
  by (simp add: init_def is_empty_def points_def len0_def and_then_def zip_star_def
      py_min_def py_max_def num_eval upt_rec_numeral)

subsection \<open>The containment test\<close>

lemma map_err_map: "\<forall>x \<in> set xs. f x = Inr (g x) \<Longrightarrow> map_err f xs = Inr (map g xs)"
  by (induction xs) simp_all

lemma inside2_in_bounds:
  "dim b = 2 \<Longrightarrow> length p = 2 \<Longrightarrow> inside2 b p = Inr (in_bounds b p)"
  by (auto simp: inside2_def in_bounds_def getitem_def and_then_def)

lemma inside3_in_bounds:
  "dim b \<noteq> 2 \<Longrightarrow> minz b = Some zl \<Longrightarrow> maxz b = Some zh \<Longrightarrow> length p = 3 \<Longrightarrow>
   inside3 b p = Inr (in_bounds b p)"
  by (auto simp: inside3_def in_bounds_def getitem_def and_then_def)

lemma inside_points:
  assumes "built b" "points a = Inr ps" "ps \<noteq> []" "\<forall>q \<in> set ps. length q = dim b"
  shows "inside b a =
     Inr (if is_single a then Single (in_bounds b (hd ps)) else Many (map (in_bounds b) ps))"
proof -
  have "map_err (if dim b = 2 then inside2 b else inside3 b) ps = Inr (map (in_bounds b) ps)"
  proof (rule map_err_map, rule ballI)
    fix q assume "q \<in> set ps"
    with assms(4) have "length q = dim b" by blast
    with built_shape[OF assms(1)]
    show "(if dim b = 2 then inside2 b else inside3 b) q = Inr (in_bounds b q)"
      by (auto simp: inside2_in_bounds inside3_in_bounds)
  qed
  moreover from assms(3,4) have "len0 ps = Inr (dim b)"
    by (cases ps) (simp_all add: len0_def)
  ultimately show ?thesis
    using assms(2,3) by (cases ps) (simp_all add: inside_def and_then_def Let_def)
qed

text \<open>
  Claim C9, as amended. On a box that \<open>init\<close> and \<open>update\<close> have built, \<open>inside\<close> called
  with one bare point of the box's dimensionality returns a single boolean, the test
  of that point; called with a non-empty list of points of the box's dimensionality
  it returns a list with the test of each point, in the order of the points.
\<close>

theorem inside_one_or_many:
  assumes "built b"
  shows "(length p = dim b \<longrightarrow> inside b (Bare p) = Inr (Single (in_bounds b p))) \<and>
         (ps \<noteq> [] \<and> (\<forall>q \<in> set ps. length q = dim b) \<longrightarrow>
            inside b (Pts ps) = Inr (Many (map (in_bounds b) ps)))"
proof (intro conjI impI)
  assume len: "length p = dim b"
  with built_shape[OF assms] have s: "is_single (Bare p)"
    by (auto simp: is_single_def)
  then have "points (Bare p) = Inr [p]" by (simp add: points_def)
  from inside_points[OF assms this] len s
  show "inside b (Bare p) = Inr (Single (in_bounds b p))" by simp
next
  assume "ps \<noteq> [] \<and> (\<forall>q \<in> set ps. length q = dim b)"
  moreover have "points (Pts ps) = Inr ps" "\<not> is_single (Pts ps)"
    by (simp_all add: points_def is_single_def)
  ultimately show "inside b (Pts ps) = Inr (Many (map (in_bounds b) ps))"
    using inside_points[OF assms, of "Pts ps" ps] by simp
qed

theorem inside_one_or_many_witness:
  "built \<lparr>minx = PyInt 0, maxx = PyInt 4, miny = PyInt 0, maxy = PyInt 2, minz = None, maxz = None, dim = 2\<rparr> \<and>
   inside \<lparr>minx = PyInt 0, maxx = PyInt 4, miny = PyInt 0, maxy = PyInt 2, minz = None, maxz = None, dim = 2\<rparr>
     (Bare [PyInt 1, PyInt 1]) = Inr (Single True) \<and>
   inside \<lparr>minx = PyInt 0, maxx = PyInt 4, miny = PyInt 0, maxy = PyInt 2, minz = None, maxz = None, dim = 2\<rparr>
     (Pts [[PyInt 1, PyInt 1], [PyInt 5, PyInt 1], [PyInt 4, PyInt 2]]) = Inr (Many [True, False, True])"
proof -
  let ?b = "\<lparr>minx = PyInt 0, maxx = PyInt 4, miny = PyInt 0, maxy = PyInt 2, minz = None, maxz = None, dim = 2\<rparr>"
  have "init (Pts [[PyInt 0, PyInt 0], [PyInt 4, PyInt 2]]) = Inr ?b"
    by (simp add: init_Pts_2 py_min_def py_max_def num_eval)
  then have b: "built ?b" by (rule built_init)
  from inside_one_or_many[OF b, of "[PyInt 1, PyInt 1]" "[[PyInt 1, PyInt 1], [PyInt 5, PyInt 1], [PyInt 4, PyInt 2]]"] b
  show ?thesis by (simp add: in_bounds_def num_eval)
qed

text \<open>
  Without the two provisos the call raises: a bare 3-tuple on a box of dimension 2
  meets the check of the dimension, and the empty list has no \<^verbatim>\<open>pnts[0]\<close>.
\<close>

theorem inside_counterexample:
  "init (Pts [[PyInt 0, PyInt 0], [PyInt 4, PyInt 2]]) =
     Inr \<lparr>minx = PyInt 0, maxx = PyInt 4, miny = PyInt 0, maxy = PyInt 2, minz = None, maxz = None, dim = 2\<rparr> \<and>
   inside \<lparr>minx = PyInt 0, maxx = PyInt 4, miny = PyInt 0, maxy = PyInt 2, minz = None, maxz = None, dim = 2\<rparr>
     (Bare [PyInt 1, PyInt 1, PyInt 1]) = Inl NotConform \<and>
   inside \<lparr>minx = PyInt 0, maxx = PyInt 4, miny = PyInt 0, maxy = PyInt 2, minz = None, maxz = None, dim = 2\<rparr>
     (Pts []) = Inl IndexError"
  by (simp add: init_Pts_2 py_min_def py_max_def num_eval inside_def points_def is_single_def len0_def
      and_then_def)

section \<open>Locating group codes\<close>








section \<open>Evaluation on concrete streams\<close>

text \<open>The equations that compute the decoder on a list of literal tokens.\<close>

lemmas dxf_eval =
  decode_def get_polylines_def get_polyline_def enumerate_eq_def locate_def index_from_def
  and_then_def getitem_def float_at_def to_float_def to_int_def closed_flag_def except_ValueError_def
  vertex_windows_def get_vertex_def bulge_angle_def segment_def close_points_def
  get_lines_def get_line_def get_arcs_def get_arc_def get_circles_def get_circle_def
  upt_rec_numeral

section \<open>Lines\<close>


lemma codes_in_order_mono:
  "m \<le> n \<Longrightarrow> codes_in_order lines cs n \<Longrightarrow> codes_in_order lines cs m"
  by (cases cs) (auto simp: list_ex_iff)












section \<open>Arcs\<close>


section \<open>The order of the decoded entities\<close>














section \<open>Polylines\<close>

text \<open>
  Claim C1 says that a polyline is built from the \<^verbatim>\<open>VERTEX\<close> markers between its own
  \<^verbatim>\<open>POLYLINE\<close> and \<^verbatim>\<open>SEQEND\<close> markers only. \<open>get_polyline\<close> takes the \<^verbatim>\<open>VERTEX\<close>
  markers of the whole slice for every polyline. On a slice with two open polylines of
  two vertices each, A from \<open>(0, 0)\<close> to \<open>(1, 0)\<close> and B from \<open>(5, 5)\<close> to \<open>(6, 5)\<close>, each
  of the two yields three lines through all four vertices, among them a line from A's
  last vertex to B's first.
\<close>

theorem two_polylines_share_vertices:
  "decode (map_of [(''0.0'', Fin 0), (''1.0'', Fin 1), (''5.0'', Fin 5), (''6.0'', Fin 6)])
     (map_of [(''0'', 0), (''1'', 1)]) no_arcdata
     [''0'', ''POLYLINE'', ''8'', ''A'', ''66'', ''1'', ''70'', ''0'',
      ''0'', ''VERTEX'', ''8'', ''A'', ''10'', ''0.0'', ''20'', ''0.0'',
      ''0'', ''VERTEX'', ''8'', ''A'', ''10'', ''1.0'', ''20'', ''0.0'',
      ''0'', ''SEQEND'', ''8'', ''A'',
      ''0'', ''POLYLINE'', ''8'', ''B'', ''66'', ''1'', ''70'', ''0'',
      ''0'', ''VERTEX'', ''8'', ''B'', ''10'', ''5.0'', ''20'', ''5.0'',
      ''0'', ''VERTEX'', ''8'', ''B'', ''10'', ''6.0'', ''20'', ''5.0'',
      ''0'', ''SEQEND'', ''8'', ''B'']
   = Inr [Line (Fin 0) (Fin 0) (Fin 1) (Fin 0) 1 ''A'', Line (Fin 1) (Fin 0) (Fin 5) (Fin 5) 1 ''A'', Line (Fin 5) (Fin 5) (Fin 6) (Fin 5) 1 ''A'',
          Line (Fin 0) (Fin 0) (Fin 1) (Fin 0) 29 ''B'', Line (Fin 1) (Fin 0) (Fin 5) (Fin 5) 29 ''B'', Line (Fin 5) (Fin 5) (Fin 6) (Fin 5) 29 ''B'']"
  by (simp add: dxf_eval)

end
